theory Spec2Isabelle
  imports Complex_Main
begin

section \<open>Data model (src/types)\<close>

text \<open>
  JavaScript numbers are modelled as \<open>real\<close>: sums, products, quotients and square roots
  are the exact ones, and there is no NaN and no infinity. Counts, indices and lengths are
  \<open>nat\<close>, the \<open>limit\<close> of a search is an \<open>int\<close> (it may be negative). Strings are
  \<open>string\<close>: lists of 8-bit code units, which covers the Latin-1 range of a JavaScript
  string. A \<open>Date\<close> is the number of milliseconds it holds.
\<close>

datatype memory_type = Document | Skill_execution | Conversation | Experience

datatype any = Num nat | Str string | Bool bool | Null

record MemoryMetadata =
  source :: "string option"
  type_m :: memory_type
  tags :: "string list option"
  context_m :: "(string \<times> any) list option"

record MemoryEntry =
  id_e :: string
  content :: string
  metadata :: MemoryMetadata
  embedding :: "real list option"
  timestamp :: nat

record MemoryRecallResult =
  entry :: MemoryEntry
  similarity :: real

datatype error = Vectors_must_have_the_same_length | Skill_not_found string

section \<open>VectorStore (vector/store)\<close>

text \<open>
  The \<open>Map\<close> of the store keeps its keys in insertion order, and \<open>set\<close> on a key
  that is present replaces the value where it stands: an association list.
\<close>

fun map_set :: "('k \<times> 'v) list \<Rightarrow> 'k \<Rightarrow> 'v \<Rightarrow> ('k \<times> 'v) list" where
  "map_set [] k v = [(k, v)]"
| "map_set ((k', v') # m) k v = (if k' = k then (k, v) # m else (k', v') # map_set m k v)"

type_synonym vectors = "(string \<times> MemoryEntry \<times> real list) list"

record VectorStore =
  vectors :: vectors
  vectors_json :: vectors

definition saveVectors :: "VectorStore \<Rightarrow> VectorStore" where
  "saveVectors s = s\<lparr>vectors_json := vectors s\<rparr>"

definition store :: "VectorStore \<Rightarrow> MemoryEntry \<Rightarrow> real list \<Rightarrow> VectorStore" where
  "store s e emb = saveVectors (s\<lparr>vectors := map_set (vectors s) (id_e e) (e, emb)\<rparr>)"

definition get :: "VectorStore \<Rightarrow> string \<Rightarrow> MemoryEntry option" where
  "get s k = map_option fst (map_of (vectors s) k)"

definition getAll :: "VectorStore \<Rightarrow> MemoryEntry list" where
  "getAll s = map (\<lambda>(k, e, emb). e) (vectors s)"

definition delete :: "VectorStore \<Rightarrow> string \<Rightarrow> bool \<times> VectorStore" where
  "delete s k =
     (let deleted = (map_of (vectors s) k \<noteq> None)
      in if deleted then (deleted, saveVectors (s\<lparr>vectors := filter (\<lambda>v. fst v \<noteq> k) (vectors s)\<rparr>))
         else (deleted, s))"

definition clear :: "VectorStore \<Rightarrow> VectorStore" where
  "clear s = saveVectors (s\<lparr>vectors := []\<rparr>)"

definition count :: "VectorStore \<Rightarrow> nat" where
  "count s = length (vectors s)"

text \<open>The loop of \<open>cosineSimilarity\<close>: the three running sums over the index.\<close>

fun cosineSums :: "real list \<Rightarrow> real list \<Rightarrow> real \<Rightarrow> real \<Rightarrow> real \<Rightarrow> real \<times> real \<times> real" where
  "cosineSums (x # xs) (y # ys) dotProduct normA normB =
     cosineSums xs ys (dotProduct + x * y) (normA + x * x) (normB + y * y)"
| "cosineSums _ _ dotProduct normA normB = (dotProduct, normA, normB)"

definition cosineSimilarity :: "real list \<Rightarrow> real list \<Rightarrow> error + real" where
  "cosineSimilarity a b =
     (if length a \<noteq> length b then Inl Vectors_must_have_the_same_length
      else case cosineSums a b 0 0 0 of (dotProduct, sumA, sumB) \<Rightarrow>
        let normA = sqrt sumA; normB = sqrt sumB
        in if normA = 0 \<or> normB = 0 then Inr 0
           else Inr (dotProduct / (normA * normB)))"

text \<open>
  The loop of \<open>search\<close> over the entries of the map, in insertion order; an exception of
  \<open>cosineSimilarity\<close> ends the call.
\<close>

fun search_loop ::
  "real list \<Rightarrow> real \<Rightarrow> vectors \<Rightarrow> MemoryRecallResult list \<Rightarrow> error + MemoryRecallResult list"
where
  "search_loop q threshold [] results = Inr results"
| "search_loop q threshold ((k, e, emb) # rest) results =
     (case cosineSimilarity q emb of
        Inl err \<Rightarrow> Inl err
      | Inr sim \<Rightarrow>
          search_loop q threshold rest
            (if sim \<ge> threshold then results @ [\<lparr>entry = e, similarity = sim\<rparr>] else results))"

text \<open>
  \<open>Array.prototype.slice(0, end)\<close> for an integral \<open>end\<close>: a negative \<open>end\<close> counts
  from the end of the array.
\<close>

definition slice0 :: "'a list \<Rightarrow> int \<Rightarrow> 'a list" where
  "slice0 xs end_i =
     (let len = int (length xs);
          final = (if end_i < 0 then max (len + end_i) 0 else min end_i len)
      in take (nat final) xs)"

text \<open>
  \<open>results.sort((a, b) => b.similarity - a.similarity)\<close>: \<open>Array.prototype.sort\<close> is
  stable, and the comparator orders by similarity, descending.
\<close>

definition sort_desc :: "MemoryRecallResult list \<Rightarrow> MemoryRecallResult list" where
  "sort_desc results = sort_key (\<lambda>r. - similarity r) results"

definition search ::
  "VectorStore \<Rightarrow> real list \<Rightarrow> int \<Rightarrow> real \<Rightarrow> error + MemoryRecallResult list"
where
  "search s queryEmbedding limit threshold =
     (case search_loop queryEmbedding threshold (vectors s) [] of
        Inl err \<Rightarrow> Inl err
      | Inr results \<Rightarrow> Inr (slice0 (sort_desc results) limit))"

definition entry0 :: "string \<Rightarrow> memory_type \<Rightarrow> MemoryEntry" where
  "entry0 k ty =
     \<lparr>id_e = k, content = k,
      metadata = \<lparr>source = None, type_m = ty, tags = None, context_m = None\<rparr>,
      embedding = None, timestamp = 0\<rparr>"

definition empty_store :: VectorStore where
  "empty_store = \<lparr>vectors = [], vectors_json = []\<rparr>"

definition store2 :: VectorStore where
  "store2 =
     \<lparr>vectors = [(''a'', entry0 ''a'' Document, [1, 0]), (''b'', entry0 ''b'' Conversation, [1, 0])],
      vectors_json = []\<rparr>"

section \<open>Strings\<close>

text \<open>
  \<open>charCodeAt\<close> is \<open>of_char\<close>. \<open>toLowerCase\<close> on the Latin-1 range maps \<open>A\<close>-\<open>Z\<close>
  and the capital letters \<open>0xC0\<close>-\<open>0xDE\<close> (without the sign \<open>0xD7\<close>) to the letter 32
  above and leaves every other code unit as it is. The class \<open>\s\<close> of a regular expression
  holds, in that range, the code units 9 to 13, 32 and 160.
\<close>

definition isWhiteSpace :: "char \<Rightarrow> bool" where
  "isWhiteSpace c = (of_char c \<in> {9, 10, 11, 12, 13, 32, 160 :: nat})"

definition toLowerCase_char :: "char \<Rightarrow> char" where
  "toLowerCase_char c =
     (let n = of_char c :: nat
      in if (65 \<le> n \<and> n \<le> 90) \<or> (192 \<le> n \<and> n \<le> 222 \<and> n \<noteq> 215)
         then char_of (n + 32) else c)"

definition toLowerCase :: "string \<Rightarrow> string" where
  "toLowerCase s = map toLowerCase_char s"

text \<open>
  \<open>s.split(/\s+/)\<close>: the pieces of \<open>s\<close> between the maximal runs of white space. A run
  at the start leaves an empty piece in front, a run at the end an empty piece behind, and
  the empty string splits into one empty piece.
\<close>

function splitWs :: "string \<Rightarrow> string list" where
  "splitWs [] = [[]]"
| "splitWs (c # cs) =
     (if isWhiteSpace c then [] # splitWs (dropWhile isWhiteSpace cs)
      else case splitWs cs of [] \<Rightarrow> [[c]] | w # ws \<Rightarrow> (c # w) # ws)"
  by pat_completeness auto
termination
  by (relation "measure length") (auto simp: length_dropWhile_le less_Suc_eq_le)

text \<open>
  \<open>s.split(/\n\n+/)\<close>: the pieces of \<open>s\<close> between the maximal runs of two or more line
  feeds; a single line feed stays inside its piece.
\<close>

definition lf :: char where
  "lf = CHR 0x0A"

function splitParagraphs :: "string \<Rightarrow> string list" where
  "splitParagraphs [] = [[]]"
| "splitParagraphs (c # cs) =
     (if c = lf \<and> cs \<noteq> [] \<and> hd cs = lf
      then [] # splitParagraphs (dropWhile (\<lambda>x. x = lf) cs)
      else case splitParagraphs cs of [] \<Rightarrow> [[c]] | w # ws \<Rightarrow> (c # w) # ws)"
  by pat_completeness auto
termination
  by (relation "measure length") (auto simp: length_dropWhile_le less_Suc_eq_le)

text \<open>\<open>s.includes(k)\<close>: \<open>k\<close> occurs in \<open>s\<close> as a contiguous piece.\<close>

fun includes_s :: "string \<Rightarrow> string \<Rightarrow> bool" where
  "includes_s [] k = (k = [])"
| "includes_s (c # cs) k = (take (length k) (c # cs) = k \<or> includes_s cs k)"

text \<open>\<open>parts.join(sep)\<close>.\<close>

fun join :: "string list \<Rightarrow> string \<Rightarrow> string" where
  "join [] sep = []"
| "join [x] sep = x"
| "join (x # y # ys) sep = x @ sep @ join (y # ys) sep"

section \<open>EmbeddingService: the fallback embedding (vector/embeddings)\<close>

text \<open>The inner loop over the code units of the word with index \<open>i\<close>, from position \<open>j\<close> on.\<close>

fun charLoop :: "nat \<Rightarrow> real \<Rightarrow> nat \<Rightarrow> string \<Rightarrow> real list \<Rightarrow> real list" where
  "charLoop i inc j [] emb = emb"
| "charLoop i inc j (c # cs) emb =
     (let charCode = of_char c :: nat;
          index = (charCode + j * 17 + i * 31) mod 384
      in charLoop i inc (j + 1) cs (emb[index := emb ! index + inc]))"

text \<open>The outer loop over the words, from index \<open>i\<close> on.\<close>

fun wordLoop :: "real \<Rightarrow> nat \<Rightarrow> string list \<Rightarrow> real list \<Rightarrow> real list" where
  "wordLoop inc i [] emb = emb"
| "wordLoop inc i (w # ws) emb = wordLoop inc (i + 1) ws (charLoop i inc 0 w emb)"

definition simpleFallbackEmbedding :: "string \<Rightarrow> real list" where
  "simpleFallbackEmbedding text =
     (let words = splitWs (toLowerCase text);
          emb = wordLoop (1 / sqrt (real (length words))) 0 words (replicate 384 0);
          norm = sqrt (\<Sum>val\<leftarrow>emb. val * val)
      in if norm > 0 then map (\<lambda>val. val / norm) emb else emb)"

text \<open>The L2 norm of a vector.\<close>

definition l2norm :: "real list \<Rightarrow> real" where
  "l2norm v = sqrt (\<Sum>x\<leftarrow>v. x * x)"

section \<open>AgentMemory: chunking (core/memory)\<close>

text \<open>
  The loop of \<open>chunkText\<close> over the paragraphs, with the chunks pushed so far and the
  running chunk. The test adds the length of the running chunk and of the paragraph; the
  separator \<open>\n\n\<close> that joins them is not part of the sum.
\<close>

fun chunkLoop :: "nat \<Rightarrow> string list \<Rightarrow> string list \<Rightarrow> string \<Rightarrow> string list \<times> string" where
  "chunkLoop maxChunkSize [] chunks currentChunk = (chunks, currentChunk)"
| "chunkLoop maxChunkSize (paragraph # rest) chunks currentChunk =
     (if length currentChunk + length paragraph \<le> maxChunkSize
      then chunkLoop maxChunkSize rest chunks
             (currentChunk @ (if currentChunk \<noteq> [] then [lf, lf] else []) @ paragraph)
      else chunkLoop maxChunkSize rest
             (if currentChunk \<noteq> [] then chunks @ [currentChunk] else chunks) paragraph)"

text \<open>The last running chunk is pushed when it is not empty.\<close>

definition closeChunks :: "string list \<times> string \<Rightarrow> string list" where
  "closeChunks st = (case st of (chunks, currentChunk) \<Rightarrow>
     if currentChunk \<noteq> [] then chunks @ [currentChunk] else chunks)"

definition chunkText :: "string \<Rightarrow> nat \<Rightarrow> string list" where
  "chunkText text maxChunkSize =
     (let paragraphs = splitParagraphs text;
          chunks = closeChunks (chunkLoop maxChunkSize paragraphs [] [])
      in if length chunks > 0 then chunks else [text])"

section \<open>SkillManager (skills/manager)\<close>

record SkillContext =
  query :: string
  memories :: "MemoryEntry list option"
  metadata_c :: "(string \<times> any) list option"

record SkillResult =
  success :: bool
  output_r :: any
  error_r :: "string option"
  metadata_r :: "(string \<times> any) list option"

text \<open>
  What a skill throws: an \<open>Error\<close> object with its message, or any other value, given
  by the string that \<open>String(value)\<close> makes of it. A skill is run to its end: \<open>execute\<close>
  either returns a result or throws.
\<close>

datatype thrown = Error string | Other string

record Skill =
  id_s :: string
  name :: string
  description :: string
  execute :: "SkillContext \<Rightarrow> thrown + SkillResult"

record SkillExecutionHistory =
  skillId :: string
  context_h :: SkillContext
  result :: SkillResult
  timestamp_h :: nat

text \<open>
  The reason of a recommendation is kept as the list of its parts, before they are
  formatted and joined; the empty list stands for the text "potential match".
\<close>

datatype reason_part = High_success_rate real | Strong_relevance_to_query

record SkillRecommendation =
  skill :: Skill
  confidence :: real
  reason :: "reason_part list"
  historicalSuccessRate :: "real option"

record SkillManager =
  skills :: "(string \<times> Skill) list"
  executionHistory :: "SkillExecutionHistory list"
  history_json :: "SkillExecutionHistory list"

definition registerSkill :: "SkillManager \<Rightarrow> Skill \<Rightarrow> SkillManager" where
  "registerSkill m s = m\<lparr>skills := map_set (skills m) (id_s s) s\<rparr>"

definition saveHistory :: "SkillManager \<Rightarrow> SkillManager" where
  "saveHistory m = m\<lparr>history_json := executionHistory m\<rparr>"

text \<open>\<open>error instanceof Error ? error.message : String(error)\<close>\<close>

fun message :: "thrown \<Rightarrow> string" where
  "message (Error msg) = msg"
| "message (Other str) = str"

text \<open>
  \<open>executeSkill\<close>, with the time \<open>now\<close> that \<open>new Date()\<close> reads after the skill has
  run. It returns the error or the result, and the manager after the call.
\<close>

definition executeSkill ::
  "SkillManager \<Rightarrow> string \<Rightarrow> SkillContext \<Rightarrow> nat \<Rightarrow> (error + SkillResult) \<times> SkillManager"
where
  "executeSkill m sid ctx now =
     (case map_of (skills m) sid of
        None \<Rightarrow> (Inl (Skill_not_found sid), m)
      | Some s \<Rightarrow>
          let res = (case execute s ctx of
                       Inr r \<Rightarrow> r
                     | Inl err \<Rightarrow>
                         \<lparr>success = False, output_r = Null, error_r = Some (message err),
                          metadata_r = None\<rparr>);
              historyEntry = \<lparr>skillId = sid, context_h = ctx, result = res, timestamp_h = now\<rparr>
          in (Inr res, saveHistory (m\<lparr>executionHistory := executionHistory m @ [historyEntry]\<rparr>)))"

text \<open>
  \<open>new Set(xs)\<close>: the distinct elements of \<open>xs\<close>, in the order of their first
  occurrence; its \<open>size\<close> is the length of that list and \<open>has\<close> is membership.
\<close>

definition newSet :: "'a list \<Rightarrow> 'a list" where
  "newSet xs = fold (\<lambda>x s. if x \<in> set s then s else s @ [x]) xs []"

definition isSimilarContext :: "SkillContext \<Rightarrow> SkillContext \<Rightarrow> bool" where
  "isSimilarContext context1 context2 =
     (let query1 = toLowerCase (query context1);
          query2 = toLowerCase (query context2);
          words1 = newSet (splitWs query1);
          words2 = newSet (splitWs query2);
          intersection = newSet (filter (\<lambda>x. x \<in> set words2) words1);
          union = newSet (words1 @ words2)
      in real (length intersection) / real (length union) > 0.3)"

definition calculateSuccessRate :: "SkillManager \<Rightarrow> string \<Rightarrow> SkillContext \<Rightarrow> real" where
  "calculateSuccessRate m sid ctx =
     (let relevantHistory =
            filter (\<lambda>h. skillId h = sid \<and> isSimilarContext (context_h h) ctx) (executionHistory m)
      in if length relevantHistory = 0 then 0.5
         else let successfulExecutions = length (filter (\<lambda>h. success (result h)) relevantHistory)
              in real successfulExecutions / real (length relevantHistory))"

text \<open>The loop of \<open>calculateRelevance\<close> over the keywords.\<close>

fun relevanceLoop :: "string \<Rightarrow> string \<Rightarrow> string list \<Rightarrow> real \<Rightarrow> real" where
  "relevanceLoop skillName skillDesc [] relevance = relevance"
| "relevanceLoop skillName skillDesc (keyword # rest) relevance =
     (let r1 = (if includes_s skillName keyword then relevance + 0.3 else relevance);
          r2 = (if includes_s skillDesc keyword then r1 + 0.2 else r1)
      in relevanceLoop skillName skillDesc rest r2)"

definition calculateRelevance :: "Skill \<Rightarrow> SkillContext \<Rightarrow> real" where
  "calculateRelevance s ctx =
     (let queryLower = toLowerCase (query ctx);
          skillName = toLowerCase (name s);
          skillDesc = toLowerCase (description s);
          keywords = filter (\<lambda>w. length w > 3) (splitWs queryLower)
      in min (relevanceLoop skillName skillDesc keywords 0) 1.0)"

definition generateRecommendationReason :: "Skill \<Rightarrow> real \<Rightarrow> real \<Rightarrow> reason_part list" where
  "generateRecommendationReason s successRate relevanceScore =
     (if successRate > 0.7 then [High_success_rate successRate] else [])
     @ (if relevanceScore > 0.5 then [Strong_relevance_to_query] else [])"

text \<open>The loop of \<open>recommendSkills\<close> over the entries of the skill map.\<close>

fun recommendLoop ::
  "SkillManager \<Rightarrow> SkillContext \<Rightarrow> (string \<times> Skill) list \<Rightarrow> SkillRecommendation list
     \<Rightarrow> SkillRecommendation list"
where
  "recommendLoop m ctx [] recommendations = recommendations"
| "recommendLoop m ctx ((sid, s) # rest) recommendations =
     (let successRate = calculateSuccessRate m sid ctx;
          relevanceScore = calculateRelevance s ctx;
          conf = (successRate + relevanceScore) / 2
      in recommendLoop m ctx rest
           (recommendations @
            [\<lparr>skill = s, confidence = conf,
              reason = generateRecommendationReason s successRate relevanceScore,
              historicalSuccessRate = Some successRate\<rparr>]))"

definition recommendSkills :: "SkillManager \<Rightarrow> SkillContext \<Rightarrow> int \<Rightarrow> SkillRecommendation list" where
  "recommendSkills m ctx limit =
     slice0 (sort_key (\<lambda>r. - confidence r) (recommendLoop m ctx (skills m) [])) limit"

text \<open>The built-in skill \<open>codeReviewSkill\<close> (skills/builtin), a skill that throws, and a manager.\<close>

definition codeReviewSkill :: Skill where
  "codeReviewSkill =
     \<lparr>id_s = ''code-review'', name = ''Code Review'',
      description = ''Analyze code for quality, security, and best practices'',
      execute = (\<lambda>ctx. Inr \<lparr>success = True, output_r = Str ''findings'', error_r = None,
                                 metadata_r = Some [(''analysisType'', Str ''code-review'')]\<rparr>)\<rparr>"

definition throwingSkill :: Skill where
  "throwingSkill =
     \<lparr>id_s = ''throwing'', name = ''Throwing'', description = ''Always throws'',
      execute = (\<lambda>ctx. Inl (Error ''boom''))\<rparr>"

definition manager0 :: SkillManager where
  "manager0 =
     registerSkill (registerSkill \<lparr>skills = [], executionHistory = [], history_json = []\<rparr>
       codeReviewSkill) throwingSkill"

definition context0 :: "string \<Rightarrow> SkillContext" where
  "context0 q = \<lparr>query = q, memories = None, metadata_c = None\<rparr>"

text \<open>
  The notions the recommendation engine is described with. The tokens of a query are the
  pieces of its lower-cased text between runs of white space, as \<open>split\<close> yields them:
  the empty piece in front of a leading run or behind a trailing run is one of them. The
  Jaccard similarity of two sets is the size of their intersection over the size of their
  union. The relevance score is described as a sum over the query's words of length above
  3, capped at 1.
\<close>

definition tokens :: "string \<Rightarrow> string set" where
  "tokens q = set (splitWs (toLowerCase q))"

definition jaccard :: "'a set \<Rightarrow> 'a set \<Rightarrow> real" where
  "jaccard A B = real (card (A \<inter> B)) / real (card (A \<union> B))"

definition relevanceScore_spec :: "string \<Rightarrow> string \<Rightarrow> string \<Rightarrow> real" where
  "relevanceScore_spec nm descr q =
     min 1 (\<Sum>w\<leftarrow>filter (\<lambda>w. length w > 3) (splitWs (toLowerCase q)).
              (if includes_s (toLowerCase nm) w then 0.3 else 0)
              + (if includes_s (toLowerCase descr) w then 0.2 else 0))"

text \<open>The manager after one successful run of \<open>code-review\<close> for the query \<open>deploy \<close>.\<close>

definition manager1 :: SkillManager where
  "manager1 = snd (executeSkill manager0 ''code-review'' (context0 ''deploy '') 1000)"

section \<open>AgentMemory (core/memory)\<close>

text \<open>
  The collaborators of the orchestrator are parameters: the embedder of the embedding
  service after \<open>initialize\<close> (absent when the model could not be loaded; it may throw),
  the conversion of a file to text, the generator of random ids (the \<open>i\<close>-th id of a
  call) and the clock (the time at the \<open>i\<close>-th step of a call).
\<close>

record ConversionResult =
  content_c :: string
  originalFormat :: string

record Env =
  embedder :: "(string \<Rightarrow> thrown + real list) option"
  convertToText :: "string \<Rightarrow> thrown + ConversionResult"
  generateId :: "nat \<Rightarrow> string"
  clock :: "nat \<Rightarrow> nat"

definition embed :: "Env \<Rightarrow> string \<Rightarrow> real list" where
  "embed env text =
     (case embedder env of
        None \<Rightarrow> simpleFallbackEmbedding text
      | Some f \<Rightarrow> (case f text of Inr v \<Rightarrow> v | Inl err \<Rightarrow> simpleFallbackEmbedding text))"

record IngestionOptions =
  tags_o :: "string list option"
  source_o :: "string option"
  chunkSize :: "nat option"
  generateEmbedding :: "bool option"

record Filters =
  type_f :: "memory_type option"
  tags_f :: "string list option"
  source_f :: "string option"

record RecallOptions =
  limit_o :: "int option"
  threshold_o :: "real option"
  filters :: "Filters option"

record AgentMemory =
  vectorStore :: VectorStore
  skillManager :: SkillManager
  similarityThreshold :: real

text \<open>
  \<open>a || b\<close> on an optional number, an optional string and an optional list: the number 0
  and the empty string are falsy, an empty list is not.
\<close>

definition or_num :: "'a::zero option \<Rightarrow> 'a \<Rightarrow> 'a" where
  "or_num a b = (case a of None \<Rightarrow> b | Some x \<Rightarrow> if x = 0 then b else x)"

definition or_str :: "string option \<Rightarrow> string \<Rightarrow> string" where
  "or_str a b = (case a of None \<Rightarrow> b | Some x \<Rightarrow> if x = [] then b else x)"

definition or_list :: "'a list option \<Rightarrow> 'a list \<Rightarrow> 'a list" where
  "or_list a b = (case a of None \<Rightarrow> b | Some x \<Rightarrow> x)"

text \<open>
  The loop of \<open>ingest\<close> over the chunks, from index \<open>i\<close> on, with the store and the
  ids pushed so far.
\<close>

fun ingestLoop ::
  "Env \<Rightarrow> string \<Rightarrow> IngestionOptions \<Rightarrow> string \<Rightarrow> nat \<Rightarrow> nat \<Rightarrow> string list \<Rightarrow>
     VectorStore \<Rightarrow> string list \<Rightarrow> VectorStore \<times> string list"
where
  "ingestLoop env filePath options fmt totalChunks i [] vs memoryIds = (vs, memoryIds)"
| "ingestLoop env filePath options fmt totalChunks i (chunk # rest) vs memoryIds =
     (let memoryId = generateId env i;
          emb = (if generateEmbedding options \<noteq> Some False then embed env chunk else []);
          md = \<lparr>source = Some (or_str (source_o options) filePath),
                type_m = Document,
                tags = Some (or_list (tags_o options) []),
                context_m = Some [(''chunkIndex'', Num i), (''totalChunks'', Num totalChunks),
                                  (''originalFormat'', Str fmt)]\<rparr>;
          e = \<lparr>id_e = memoryId, content = chunk, metadata = md, embedding = Some emb,
               timestamp = clock env i\<rparr>
      in ingestLoop env filePath options fmt totalChunks (i + 1) rest (store vs e emb)
           (memoryIds @ [memoryId]))"

text \<open>
  \<open>ingest\<close> returns what \<open>convertToText\<close> threw, or the string
  \<open>memoryIds.join(',')\<close>, and the orchestrator after the call.
\<close>

definition ingest ::
  "Env \<Rightarrow> AgentMemory \<Rightarrow> string \<Rightarrow> IngestionOptions \<Rightarrow> (thrown + string) \<times> AgentMemory"
where
  "ingest env am filePath options =
     (case convertToText env filePath of
        Inl err \<Rightarrow> (Inl err, am)
      | Inr conversionResult \<Rightarrow>
          let chunks = chunkText (content_c conversionResult) (or_num (chunkSize options) 1000)
          in case ingestLoop env filePath options (originalFormat conversionResult)
                    (length chunks) 0 chunks (vectorStore am) []
             of (vs, memoryIds) \<Rightarrow> (Inr (join memoryIds '',''), am\<lparr>vectorStore := vs\<rparr>))"

text \<open>The test of \<open>applyFilters\<close> on one entry.\<close>

definition passesFilters :: "Filters \<Rightarrow> MemoryEntry \<Rightarrow> bool" where
  "passesFilters f e =
     (if (case type_f f of Some t \<Rightarrow> type_m (metadata e) \<noteq> t | None \<Rightarrow> False) then False
      else if (case source_f f of
                 Some s \<Rightarrow> s \<noteq> [] \<and> source (metadata e) \<noteq> Some s
               | None \<Rightarrow> False) then False
      else if (case tags_f f of
                 Some ts \<Rightarrow> length ts > 0
                   \<and> \<not> list_ex (\<lambda>tag. tag \<in> set (or_list (tags (metadata e)) [])) ts
               | None \<Rightarrow> False) then False
      else True)"

definition applyFilters :: "MemoryRecallResult list \<Rightarrow> Filters \<Rightarrow> MemoryRecallResult list" where
  "applyFilters results f = filter (\<lambda>r. passesFilters f (entry r)) results"

definition recall ::
  "Env \<Rightarrow> AgentMemory \<Rightarrow> string \<Rightarrow> RecallOptions \<Rightarrow> error + MemoryRecallResult list"
where
  "recall env am q options =
     (let queryEmbedding = embed env q;
          limit = or_num (limit_o options) 5;
          threshold = or_num (threshold_o options) (or_num (Some (similarityThreshold am)) 0.5)
      in case search (vectorStore am) queryEmbedding limit threshold of
           Inl err \<Rightarrow> Inl err
         | Inr results \<Rightarrow>
             Inr (case filters options of
                    Some f \<Rightarrow> applyFilters results f
                  | None \<Rightarrow> results))"

text \<open>
  A stored entry qualifies for a recall when its similarity to the query is at least the
  threshold and it passes the filters.
\<close>

definition qualifies :: "real list \<Rightarrow> real \<Rightarrow> Filters \<Rightarrow> string \<times> MemoryEntry \<times> real list \<Rightarrow> bool" where
  "qualifies q threshold f v =
     (case v of (k, e, emb) \<Rightarrow>
        (case cosineSimilarity q emb of
           Inr sim \<Rightarrow> sim \<ge> threshold \<and> passesFilters f e
         | Inl err \<Rightarrow> False))"

text \<open>
  An environment whose embedder maps every text to \<open>[1, 0]\<close>, whose conversion yields the
  text \<open>ab\<close>, two line feeds, \<open>cd\<close> for every path, and whose ids are \<open>a1\<close>, \<open>b2\<close>,
  \<open>c3\<close>, ...; and an orchestrator over the store \<open>store2\<close>.
\<close>

definition env0 :: Env where
  "env0 =
     \<lparr>embedder = Some (\<lambda>text. Inr [1, 0]),
      convertToText =
        (\<lambda>path. Inr \<lparr>content_c = [CHR ''a'', CHR ''b'', lf, lf, CHR ''c'', CHR ''d''],
                       originalFormat = ''txt''\<rparr>),
      generateId = (\<lambda>i. if i = 0 then ''a1'' else if i = 1 then ''b2'' else ''c3''),
      clock = (\<lambda>i. 1000 + i)\<rparr>"

definition memory0 :: "VectorStore \<Rightarrow> AgentMemory" where
  "memory0 vs = \<lparr>vectorStore = vs, skillManager = manager0, similarityThreshold = 0.5\<rparr>"

definition options0 :: IngestionOptions where
  "options0 = \<lparr>tags_o = None, source_o = None, chunkSize = Some 3, generateEmbedding = None\<rparr>"

definition filters0 :: Filters where
  "filters0 = \<lparr>type_f = Some Conversation, tags_f = None, source_f = None\<rparr>"

definition recallOptions0 :: RecallOptions where
  "recallOptions0 = \<lparr>limit_o = Some 1, threshold_o = Some (1 / 2), filters = Some filters0\<rparr>"

section \<open>Cosine similarity\<close>

lemma cosineSums_eq:
  "length a = length b \<Longrightarrow>
   cosineSums a b d na nb =
     (d + (\<Sum>(x, y)\<leftarrow>zip a b. x * y), na + (\<Sum>x\<leftarrow>a. x * x), nb + (\<Sum>y\<leftarrow>b. y * y))"
proof (induction a b d na nb rule: cosineSums.induct)
  case (1 x xs y ys d na nb)
  then show ?case by (simp add: algebra_simps)
qed simp_all

lemma sum_squares_zero:
  "(\<Sum>x\<leftarrow>a. x * x) = (0::real) \<longleftrightarrow> (\<forall>x\<in>set a. x = 0)"
proof (induction a)
  case Nil
  show ?case by simp
next
  case (Cons x a)
  have nn: "0 \<le> (\<Sum>x\<leftarrow>a. x * x)"
    by (rule sum_list_nonneg) auto
  have "x * x + (\<Sum>x\<leftarrow>a. x * x) = 0 \<longleftrightarrow> x * x = 0 \<and> (\<Sum>x\<leftarrow>a. x * x) = 0"
    using nn by (simp add: add_nonneg_eq_0_iff)
  with Cons show ?case by simp
qed

lemma cosineSimilarity_mismatch:
  "length a \<noteq> length b \<Longrightarrow> cosineSimilarity a b = Inl Vectors_must_have_the_same_length"
  by (simp add: cosineSimilarity_def)

lemma cosineSimilarity_zero:
  assumes "length a = length b" and "(\<forall>x\<in>set a. x = 0) \<or> (\<forall>y\<in>set b. y = 0)"
  shows "cosineSimilarity a b = Inr 0"
proof -
  from assms(2) have "(\<Sum>x\<leftarrow>a. x * x) = 0 \<or> (\<Sum>y\<leftarrow>b. y * y) = 0"
    by (simp only: sum_squares_zero)
  with assms(1) show ?thesis
    by (auto simp: cosineSimilarity_def cosineSums_eq)
qed

lemma search_loop_mismatch:
  "\<exists>(k, e, emb)\<in>set vs. length emb \<noteq> length q \<Longrightarrow>
   search_loop q t vs rs = Inl Vectors_must_have_the_same_length"
proof (induction vs arbitrary: rs)
  case Nil
  then show ?case by simp
next
  case (Cons v vs)
  obtain k e emb where v: "v = (k, e, emb)" by (cases v) auto
  show ?case
  proof (cases "length emb = length q")
    case True
    with Cons.prems v have "\<exists>(k, e, emb)\<in>set vs. length emb \<noteq> length q" by auto
    then have "\<And>rs. search_loop q t vs rs = Inl Vectors_must_have_the_same_length"
      by (rule Cons.IH)
    with True v show ?thesis
      by (simp add: cosineSimilarity_def split: prod.splits)
  next
    case False
    then have "length q \<noteq> length emb" by simp
    with v show ?thesis by (simp add: cosineSimilarity_mismatch)
  qed
qed

text \<open>
  Claim C2. For vectors of the same length of which one is all zero, \<open>cosineSimilarity\<close>
  returns 0 (it does not fail and does not divide); for vectors of different lengths it
  fails with the error "Vectors must have the same length", and so does every search whose
  query meets a stored embedding of another length: the pair is neither skipped nor
  coerced.
\<close>

theorem C2_cosineSimilarity_zero_and_mismatch:
  "(length a = length b \<and> ((\<forall>x\<in>set a. x = 0) \<or> (\<forall>y\<in>set b. y = 0))
      \<longrightarrow> cosineSimilarity a b = Inr 0)
   \<and> (length a \<noteq> length b \<longrightarrow> cosineSimilarity a b = Inl Vectors_must_have_the_same_length)
   \<and> ((\<exists>(k, e, emb)\<in>set (vectors s). length emb \<noteq> length q)
      \<longrightarrow> search s q limit threshold = Inl Vectors_must_have_the_same_length)"
proof (intro conjI impI)
  assume "length a = length b \<and> ((\<forall>x\<in>set a. x = 0) \<or> (\<forall>y\<in>set b. y = 0))"
  then show "cosineSimilarity a b = Inr 0"
    by (simp add: cosineSimilarity_zero)
next
  assume "length a \<noteq> length b"
  then show "cosineSimilarity a b = Inl Vectors_must_have_the_same_length"
    by (rule cosineSimilarity_mismatch)
next
  assume "\<exists>(k, e, emb)\<in>set (vectors s). length emb \<noteq> length q"
  then have "search_loop q threshold (vectors s) [] = Inl Vectors_must_have_the_same_length"
    by (rule search_loop_mismatch)
  then show "search s q limit threshold = Inl Vectors_must_have_the_same_length"
    by (simp add: search_def)
qed

theorem C2_cosineSimilarity_zero_and_mismatch_witness:
  "cosineSimilarity [0, 0] [3, 4] = Inr 0
   \<and> cosineSimilarity [1] [3, 4] = Inl Vectors_must_have_the_same_length
   \<and> search \<lparr>vectors = [(''a'', entry0 ''a'' Document, [1, 0])], vectors_json = []\<rparr> [1, 0, 0] 5 0.5
       = Inl Vectors_must_have_the_same_length"
  using C2_cosineSimilarity_zero_and_mismatch [of "[0, 0]" "[3, 4]"]
    C2_cosineSimilarity_zero_and_mismatch [of "[1]" "[3, 4]"]
    C2_cosineSimilarity_zero_and_mismatch
      [of _ _ "\<lparr>vectors = [(''a'', entry0 ''a'' Document, [1, 0])], vectors_json = []\<rparr>"
          "[1, 0, 0]" 5 "0.5"]
  by simp

section \<open>Similarity search\<close>

lemma cosineSimilarity_total:
  "length a = length b \<Longrightarrow> \<exists>sim. cosineSimilarity a b = Inr sim"
  by (simp add: cosineSimilarity_def cosineSums_eq Let_def)

lemma search_loop_total:
  "\<forall>(k, e, emb)\<in>set vs. length emb = length q \<Longrightarrow> \<exists>out. search_loop q t vs rs = Inr out"
proof (induction vs arbitrary: rs)
  case Nil
  show ?case by simp
next
  case (Cons v vs)
  obtain k e emb where v: "v = (k, e, emb)" by (cases v) auto
  from Cons.prems v have len: "length q = length emb" by simp
  then obtain sim where sim: "cosineSimilarity q emb = Inr sim"
    using cosineSimilarity_total by blast
  from Cons.prems have "\<forall>(k, e, emb)\<in>set vs. length emb = length q" by simp
  then show ?case using v sim Cons.IH by simp
qed

lemma search_loop_sound:
  "search_loop q t vs rs = Inr out \<Longrightarrow>
   \<forall>r\<in>set rs. similarity r \<ge> t \<and> (\<exists>(k, e, emb)\<in>set all. entry r = e \<and> cosineSimilarity q emb = Inr (similarity r)) \<Longrightarrow>
   set vs \<subseteq> set all \<Longrightarrow>
   \<forall>r\<in>set out. similarity r \<ge> t \<and> (\<exists>(k, e, emb)\<in>set all. entry r = e \<and> cosineSimilarity q emb = Inr (similarity r))"
proof (induction vs arbitrary: rs)
  case Nil
  then show ?case by simp
next
  case (Cons v vs)
  obtain k e emb where v: "v = (k, e, emb)" by (cases v) auto
  from Cons.prems(1) v obtain sim where sim: "cosineSimilarity q emb = Inr sim"
    by (auto split: sum.splits)
  let ?rs' = "if sim \<ge> t then rs @ [\<lparr>entry = e, similarity = sim\<rparr>] else rs"
  from Cons.prems(1) v sim have run: "search_loop q t vs ?rs' = Inr out" by simp
  from Cons.prems(3) v have mem: "(k, e, emb) \<in> set all" by simp
  have inv: "\<forall>r\<in>set ?rs'. similarity r \<ge> t \<and> (\<exists>(k, e, emb)\<in>set all. entry r = e \<and> cosineSimilarity q emb = Inr (similarity r))"
    using Cons.prems(2) mem sim by auto
  from Cons.prems(3) have "set vs \<subseteq> set all" by simp
  with Cons.IH [OF run inv] show ?case by simp
qed

lemma sort_desc_sorted: "sorted_wrt (\<lambda>a b. similarity a \<ge> similarity b) (sort_desc rs)"
proof -
  have "sorted (map (\<lambda>r. - similarity r) (sort_desc rs))"
    by (simp add: sort_desc_def)
  then show ?thesis by (simp add: sorted_map)
qed

lemma set_sort_desc: "set (sort_desc rs) = set rs"
  by (simp add: sort_desc_def)

lemma slice0_sorted: "sorted_wrt P xs \<Longrightarrow> sorted_wrt P (slice0 xs n)"
  by (simp add: slice0_def Let_def sorted_wrt_take)

lemma set_slice0: "set (slice0 xs n) \<subseteq> set xs"
  by (simp add: slice0_def Let_def set_take_subset)

lemma length_slice0: "0 \<le> n \<Longrightarrow> int (length (slice0 xs n)) \<le> n"
  by (simp add: slice0_def Let_def)

lemma cos10: "cosineSimilarity [1, 0] [1, 0] = Inr 1"
  by (simp add: cosineSimilarity_def)

text \<open>
  Claim C1, as amended. For every store state, every query vector whose length is that of
  every stored embedding, every threshold and every limit that is not negative,
  \<open>search\<close> returns a list of results: each result is an entry of the store with its
  cosine similarity to the query, which is at least the threshold; the list is sorted by
  similarity, descending; and it has at most \<open>limit\<close> elements.
\<close>

theorem C1_search_threshold_sorted_limit:
  assumes "\<forall>(k, e, emb)\<in>set (vectors s). length emb = length q" and "0 \<le> limit"
  shows "\<exists>rs. search s q limit threshold = Inr rs
     \<and> (\<forall>r\<in>set rs. similarity r \<ge> threshold
          \<and> (\<exists>(k, e, emb)\<in>set (vectors s). entry r = e \<and> cosineSimilarity q emb = Inr (similarity r)))
     \<and> sorted_wrt (\<lambda>a b. similarity a \<ge> similarity b) rs
     \<and> int (length rs) \<le> limit"
proof -
  from assms(1) obtain out where out: "search_loop q threshold (vectors s) [] = Inr out"
    using search_loop_total by blast
  have sound: "\<forall>r\<in>set out. similarity r \<ge> threshold
          \<and> (\<exists>(k, e, emb)\<in>set (vectors s). entry r = e \<and> cosineSimilarity q emb = Inr (similarity r))"
    by (rule search_loop_sound [OF out]) simp_all
  let ?rs = "slice0 (sort_desc out) limit"
  have 1: "search s q limit threshold = Inr ?rs"
    by (simp add: search_def out)
  have "set ?rs \<subseteq> set out"
    using set_slice0 [of "sort_desc out" limit] by (simp add: set_sort_desc)
  with sound have 2: "\<forall>r\<in>set ?rs. similarity r \<ge> threshold
          \<and> (\<exists>(k, e, emb)\<in>set (vectors s). entry r = e \<and> cosineSimilarity q emb = Inr (similarity r))"
    by blast
  have 3: "sorted_wrt (\<lambda>a b. similarity a \<ge> similarity b) ?rs"
    by (rule slice0_sorted [OF sort_desc_sorted])
  have 4: "int (length ?rs) \<le> limit"
    by (rule length_slice0 [OF assms(2)])
  from 1 2 3 4 show ?thesis by blast
qed


theorem C1_search_threshold_sorted_limit_witness:
  "\<exists>rs. search store2 [1, 0] 1 (1 / 2) = Inr rs
     \<and> list_all (\<lambda>r. similarity r \<ge> 1 / 2) rs
     \<and> sorted_wrt (\<lambda>a b. similarity a \<ge> similarity b) rs
     \<and> int (length rs) \<le> 1"
proof -
  have h: "\<forall>(k, e, emb)\<in>set (vectors store2). length emb = length [1 :: real, 0]"
    by (simp add: store2_def)
  from C1_search_threshold_sorted_limit [OF h, of 1 "1 / 2"] show ?thesis
    by (auto simp: list_all_iff)
qed

text \<open>
  The claim as stated, for every limit, fails for a negative one: \<open>slice(0, -1)\<close> drops
  the last result only, so a search with limit \<open>-1\<close> over two matching entries returns
  one result, which is more than the limit.
\<close>

theorem C1_negative_limit_counterexample:
  "list_all (\<lambda>(k, e, emb). length emb = length [1 :: real, 0]) (vectors store2)
   \<and> search store2 [1, 0] (- 1) (1 / 2) = Inr [\<lparr>entry = entry0 ''a'' Document, similarity = 1\<rparr>]
   \<and> \<not> int (length [\<lparr>entry = entry0 ''a'' Document, similarity = 1\<rparr>]) \<le> - 1"
  by (simp add: search_def store2_def cos10 sort_desc_def slice0_def)

section \<open>Embeddings of different lengths in one store\<close>

lemma map_set_mem: "(k, v) \<in> set (map_set m k v)"
  by (induction m k v rule: map_set.induct) auto

text \<open>
  Claim C8, as amended. \<open>store\<close> does not look at the length of the embedding: it always
  succeeds and keeps the entry with the embedding as given, so a store can hold embeddings
  of different lengths. The mix is detected by \<open>search\<close>: in a store state with two
  embeddings of different lengths, every search, whatever its query, fails with the error
  "Vectors must have the same length".
\<close>

theorem C8_store_unchecked_search_fails:
  "(id_e e, e, emb) \<in> set (vectors (store s e emb))
   \<and> ((\<exists>(k1, e1, emb1)\<in>set (vectors s). \<exists>(k2, e2, emb2)\<in>set (vectors s).
          length emb1 \<noteq> length emb2)
      \<longrightarrow> search s q limit threshold = Inl Vectors_must_have_the_same_length)"
proof (intro conjI impI)
  show "(id_e e, e, emb) \<in> set (vectors (store s e emb))"
    by (simp add: store_def saveVectors_def map_set_mem)
next
  assume "\<exists>(k1, e1, emb1)\<in>set (vectors s). \<exists>(k2, e2, emb2)\<in>set (vectors s).
          length emb1 \<noteq> length emb2"
  then obtain k1 e1 emb1 k2 e2 emb2 where
    m1: "(k1, e1, emb1) \<in> set (vectors s)" and m2: "(k2, e2, emb2) \<in> set (vectors s)"
    and ne: "length emb1 \<noteq> length emb2"
    by auto
  from ne have "length emb1 \<noteq> length q \<or> length emb2 \<noteq> length q" by auto
  with m1 m2 have "\<exists>(k, e, emb)\<in>set (vectors s). length emb \<noteq> length q" by auto
  then have "search_loop q threshold (vectors s) [] = Inl Vectors_must_have_the_same_length"
    by (rule search_loop_mismatch)
  then show "search s q limit threshold = Inl Vectors_must_have_the_same_length"
    by (simp add: search_def)
qed

theorem C8_store_unchecked_search_fails_witness:
  "(''b'', entry0 ''b'' Document, [1, 2]) \<in>
      set (vectors (store (store empty_store (entry0 ''a'' Document) [1]) (entry0 ''b'' Document) [1, 2]))
   \<and> search (store (store empty_store (entry0 ''a'' Document) [1]) (entry0 ''b'' Document) [1, 2])
        [1] 5 (1 / 2) = Inl Vectors_must_have_the_same_length"
proof -
  let ?s1 = "store empty_store (entry0 ''a'' Document) [1]"
  let ?s2 = "store ?s1 (entry0 ''b'' Document) [1, 2]"
  have "(id_e (entry0 ''b'' Document), entry0 ''b'' Document, [1, 2]) \<in> set (vectors ?s2)"
    by (rule C8_store_unchecked_search_fails [THEN conjunct1])
  then have a: "(''b'', entry0 ''b'' Document, [1, 2]) \<in> set (vectors ?s2)"
    by (simp add: entry0_def)
  have h: "\<exists>(k1, e1, emb1)\<in>set (vectors ?s2). \<exists>(k2, e2, emb2)\<in>set (vectors ?s2).
          length emb1 \<noteq> length emb2"
    by (auto simp: store_def saveVectors_def empty_store_def entry0_def)
  have b: "search ?s2 [1] 5 (1 / 2) = Inl Vectors_must_have_the_same_length"
    by (rule C8_store_unchecked_search_fails [THEN conjunct2, THEN mp, OF h])
  from a b show ?thesis by (rule conjI)
qed

text \<open>
  The claim as stated fails: storing an embedding of length 2 after one of length 1
  succeeds, and the store then holds both.
\<close>

theorem C8_mixed_lengths_counterexample:
  "map (\<lambda>(k, e, emb). (k, length emb))
     (vectors (store (store empty_store (entry0 ''a'' Document) [1]) (entry0 ''b'' Document) [1, 2]))
   = [(''a'', 1), (''b'', 2)]"
  by (simp add: store_def saveVectors_def empty_store_def entry0_def)

section \<open>The fallback embedding\<close>

lemma isWhiteSpace_toLowerCase_char: "isWhiteSpace (toLowerCase_char c) = isWhiteSpace c"
  by (auto simp: isWhiteSpace_def toLowerCase_char_def Let_def)

lemma splitWs_nonempty: "splitWs s \<noteq> []"
  by (induction s rule: splitWs.induct) (auto split: list.splits)

lemma filter_dropWhile_not: "filter (\<lambda>c. \<not> P c) (dropWhile P cs) = filter (\<lambda>c. \<not> P c) cs"
  by (induction cs) auto

lemma length_concat_splitWs:
  "length (concat (splitWs s)) = length (filter (\<lambda>c. \<not> isWhiteSpace c) s)"
proof (induction s rule: splitWs.induct)
  case 1
  show ?case by simp
next
  case (2 c cs)
  show ?case
  proof (cases "isWhiteSpace c")
    case True
    with 2 show ?thesis by (simp add: filter_dropWhile_not)
  next
    case False
    with 2 show ?thesis by (auto split: list.splits)
  qed
qed

lemma filter_toLowerCase:
  "length (filter (\<lambda>c. \<not> isWhiteSpace c) (toLowerCase s)) = length (filter (\<lambda>c. \<not> isWhiteSpace c) s)"
  by (induction s) (auto simp: toLowerCase_def isWhiteSpace_toLowerCase_char)

lemma charLoop_length: "length (charLoop i inc j w emb) = length emb"
  by (induction i inc j w emb rule: charLoop.induct) (simp_all add: Let_def)

lemma wordLoop_length: "length (wordLoop inc i ws emb) = length emb"
  by (induction inc i ws emb rule: wordLoop.induct) (simp_all add: charLoop_length)

lemma sum_list_bump:
  "k < length xs \<Longrightarrow> sum_list (xs[k := xs ! k + v]) = sum_list xs + (v :: real)"
proof (induction xs arbitrary: k)
  case Nil
  then show ?case by simp
next
  case (Cons x xs)
  then show ?case by (cases k) simp_all
qed

lemma sum_list_zeros: "sum_list (replicate n (0::real)) = 0"
  by (simp add: sum_list_replicate)

lemma charLoop_sum:
  "length emb = 384 \<Longrightarrow> sum_list (charLoop i inc j w emb) = sum_list emb + inc * real (length w)"
proof (induction i inc j w emb rule: charLoop.induct)
  case (1 i inc j emb)
  show ?case by simp
next
  case (2 i inc j c cs emb)
  let ?k = "(of_char c + j * 17 + i * 31) mod 384 :: nat"
  have k: "?k < length emb" using "2.prems" by simp
  have "sum_list (emb[?k := emb ! ?k + inc]) = sum_list emb + inc"
    using k by (rule sum_list_bump)
  moreover have "length (emb[?k := emb ! ?k + inc]) = 384" using "2.prems" by simp
  ultimately show ?case using "2.IH" [of "of_char c" ?k] by (simp add: Let_def algebra_simps)
qed

lemma wordLoop_sum:
  "length emb = 384 \<Longrightarrow>
   sum_list (wordLoop inc i ws emb) = sum_list emb + inc * real (length (concat ws))"
proof (induction inc i ws emb rule: wordLoop.induct)
  case (1 inc i emb)
  show ?case by simp
next
  case (2 inc i w ws emb)
  have "length (charLoop i inc 0 w emb) = 384" using "2.prems" by (simp add: charLoop_length)
  with 2 show ?case by (simp add: charLoop_sum algebra_simps)
qed

lemma sum_list_all_zero: "\<forall>x\<in>set xs. x = (0::real) \<Longrightarrow> sum_list xs = 0"
  by (induction xs) simp_all

lemma wordLoop_no_chars: "concat ws = [] \<Longrightarrow> wordLoop inc i ws emb = emb"
  by (induction inc i ws emb rule: wordLoop.induct) simp_all

lemma sum_list_div_squares:
  "(\<Sum>x\<leftarrow>v. (x / n) * (x / n)) = (\<Sum>x\<leftarrow>v. x * x) / (n * n :: real)"
  by (induction v) (simp_all add: add_divide_distrib)

lemma l2norm_normalised:
  assumes "0 < sqrt (\<Sum>x\<leftarrow>v. x * x)"
  shows "l2norm (map (\<lambda>x. x / sqrt (\<Sum>x\<leftarrow>v. x * x)) v) = 1"
proof -
  let ?S = "\<Sum>x\<leftarrow>v. x * x"
  from assms have S: "0 < ?S" by simp
  have "(\<Sum>x\<leftarrow>v. (x / sqrt ?S) * (x / sqrt ?S)) = ?S / (sqrt ?S * sqrt ?S)"
    by (rule sum_list_div_squares)
  also have "\<dots> = 1" using S by simp
  finally show ?thesis by (simp add: l2norm_def o_def)
qed

lemma simpleFallbackEmbedding_length: "length (simpleFallbackEmbedding text) = 384"
  by (simp add: simpleFallbackEmbedding_def Let_def wordLoop_length)

lemma simpleFallbackEmbedding_blank:
  assumes "\<forall>c\<in>set text. isWhiteSpace c"
  shows "simpleFallbackEmbedding text = replicate 384 0"
proof -
  from assms have "filter (\<lambda>c. \<not> isWhiteSpace c) text = []" by (simp add: filter_empty_conv)
  then have "length (concat (splitWs (toLowerCase text))) = 0"
    by (simp add: length_concat_splitWs filter_toLowerCase)
  then have "concat (splitWs (toLowerCase text)) = []" by simp
  then have w: "\<And>inc. wordLoop inc 0 (splitWs (toLowerCase text)) (replicate 384 0) = replicate 384 0"
    by (rule wordLoop_no_chars)
  show ?thesis by (simp add: simpleFallbackEmbedding_def Let_def w)
qed

lemma simpleFallbackEmbedding_unit:
  assumes "\<exists>c\<in>set text. \<not> isWhiteSpace c"
  shows "l2norm (simpleFallbackEmbedding text) = 1"
proof -
  let ?words = "splitWs (toLowerCase text)"
  let ?inc = "1 / sqrt (real (length ?words))"
  let ?emb = "wordLoop ?inc 0 ?words (replicate 384 0)"
  have "?words \<noteq> []" by (rule splitWs_nonempty)
  then have inc: "0 < ?inc" by simp
  from assms have "filter (\<lambda>c. \<not> isWhiteSpace c) text \<noteq> []" by (simp add: filter_empty_conv)
  then have chars: "0 < length (concat ?words)"
    by (simp add: length_concat_splitWs filter_toLowerCase)
  have "sum_list ?emb = sum_list (replicate 384 (0::real)) + ?inc * real (length (concat ?words))"
    by (rule wordLoop_sum) simp
  then have "sum_list ?emb = ?inc * real (length (concat ?words))"
    by (simp only: sum_list_zeros add_0_left)
  with inc chars have pos: "0 < sum_list ?emb" by simp
  have "\<not> (\<forall>x\<in>set ?emb. x = 0)"
  proof
    assume "\<forall>x\<in>set ?emb. x = 0"
    then have "sum_list ?emb = 0" by (rule sum_list_all_zero)
    with pos show False by simp
  qed
  then have "(\<Sum>x\<leftarrow>?emb. x * x) \<noteq> 0" by (simp only: sum_squares_zero not_False_eq_True)
  moreover have "0 \<le> (\<Sum>x\<leftarrow>?emb. x * x)" by (rule sum_list_nonneg) auto
  ultimately have "0 < (\<Sum>x\<leftarrow>?emb. x * x)" by simp
  then have n: "0 < sqrt (\<Sum>x\<leftarrow>?emb. x * x)" by simp
  then have "l2norm (map (\<lambda>x. x / sqrt (\<Sum>x\<leftarrow>?emb. x * x)) ?emb) = 1"
    by (rule l2norm_normalised)
  with n show ?thesis by (simp add: simpleFallbackEmbedding_def Let_def)
qed

text \<open>
  Claim C3, as amended. \<open>simpleFallbackEmbedding\<close> is a function of the text alone (it
  reads no state, so the same text always yields the same vector); its output always has
  length 384; its output has L2 norm 1 when the text holds a code unit that is not white
  space; and when the text holds white space only (the empty text included) its output is
  the all-zero vector.
\<close>

theorem C3_fallback_length_and_norm:
  "length (simpleFallbackEmbedding text) = 384
   \<and> ((\<exists>c\<in>set text. \<not> isWhiteSpace c) \<longrightarrow> l2norm (simpleFallbackEmbedding text) = 1)
   \<and> ((\<forall>c\<in>set text. isWhiteSpace c) \<longrightarrow> simpleFallbackEmbedding text = replicate 384 0)"
proof (intro conjI impI)
  show "length (simpleFallbackEmbedding text) = 384"
    by (rule simpleFallbackEmbedding_length)
next
  assume "\<exists>c\<in>set text. \<not> isWhiteSpace c"
  then show "l2norm (simpleFallbackEmbedding text) = 1"
    by (rule simpleFallbackEmbedding_unit)
next
  assume "\<forall>c\<in>set text. isWhiteSpace c"
  then show "simpleFallbackEmbedding text = replicate 384 0"
    by (rule simpleFallbackEmbedding_blank)
qed

theorem C3_fallback_length_and_norm_witness:
  "length (simpleFallbackEmbedding ''ab c'') = 384
   \<and> l2norm (simpleFallbackEmbedding ''ab c'') = 1
   \<and> simpleFallbackEmbedding [] = replicate 384 0"
proof -
  have h1: "\<exists>c\<in>set ''ab c''. \<not> isWhiteSpace c"
    by (simp add: isWhiteSpace_def)
  have h2: "\<forall>c\<in>set ([] :: string). isWhiteSpace c"
    by simp
  note t = C3_fallback_length_and_norm
  from t [THEN conjunct1] t [THEN conjunct2, THEN conjunct1, THEN mp, OF h1]
    t [THEN conjunct2, THEN conjunct2, THEN mp, OF h2]
  show ?thesis by simp
qed

text \<open>
  The claim as stated, norm 1 unless the text is empty, fails for a text of one space: it
  is not empty, its words are two empty strings, and its embedding is the all-zero vector.
\<close>

theorem C3_blank_text_counterexample:
  "'' '' \<noteq> []
   \<and> simpleFallbackEmbedding '' '' = replicate 384 0
   \<and> l2norm (simpleFallbackEmbedding '' '') \<noteq> 1"
  using simpleFallbackEmbedding_blank [of "'' ''"]
  by (simp add: isWhiteSpace_def l2norm_def sum_list_replicate)

section \<open>Chunking\<close>

lemma chunkLoop_all_empty:
  "\<forall>p\<in>set ps. p = [] \<Longrightarrow> chunkLoop m ps [] [] = ([], [])"
  by (induction ps) simp_all

lemma chunkLoop_nonempty:
  "chunks \<noteq> [] \<or> cur \<noteq> [] \<or> (\<exists>p\<in>set ps. p \<noteq> []) \<Longrightarrow>
   closeChunks (chunkLoop m ps chunks cur) \<noteq> []"
proof (induction ps arbitrary: chunks cur)
  case Nil
  then show ?case by (auto simp: closeChunks_def)
next
  case (Cons p ps)
  show ?case
  proof (cases "length cur + length p \<le> m")
    case True
    let ?cur = "cur @ (if cur \<noteq> [] then [lf, lf] else []) @ p"
    from Cons.prems have "chunks \<noteq> [] \<or> ?cur \<noteq> [] \<or> (\<exists>p\<in>set ps. p \<noteq> [])" by auto
    then have "closeChunks (chunkLoop m ps chunks ?cur) \<noteq> []" by (rule Cons.IH)
    with True show ?thesis by simp
  next
    case False
    let ?chunks = "if cur \<noteq> [] then chunks @ [cur] else chunks"
    from Cons.prems have "?chunks \<noteq> [] \<or> p \<noteq> [] \<or> (\<exists>p\<in>set ps. p \<noteq> [])" by auto
    then have "closeChunks (chunkLoop m ps ?chunks p) \<noteq> []" by (rule Cons.IH)
    with False show ?thesis by simp
  qed
qed

lemma chunkLoop_bound:
  assumes "\<forall>c\<in>set chunks. c \<in> S \<or> length c \<le> m + 2"
    and "cur = [] \<or> cur \<in> S \<or> length cur \<le> m + 2"
    and "set ps \<subseteq> S"
  shows "\<forall>c\<in>set (closeChunks (chunkLoop m ps chunks cur)). c \<in> S \<or> length c \<le> m + 2"
  using assms
proof (induction ps arbitrary: chunks cur)
  case Nil
  then show ?case by (auto simp: closeChunks_def)
next
  case (Cons p ps)
  from Cons.prems(3) have pS: "p \<in> S" and psS: "set ps \<subseteq> S" by simp_all
  show ?case
  proof (cases "length cur + length p \<le> m")
    case True
    let ?cur = "cur @ (if cur \<noteq> [] then [lf, lf] else []) @ p"
    have "?cur = [] \<or> ?cur \<in> S \<or> length ?cur \<le> m + 2"
      using True pS by auto
    with Cons.prems(1) psS
    have "\<forall>c\<in>set (closeChunks (chunkLoop m ps chunks ?cur)). c \<in> S \<or> length c \<le> m + 2"
      by (intro Cons.IH)
    with True show ?thesis by simp
  next
    case False
    let ?chunks = "if cur \<noteq> [] then chunks @ [cur] else chunks"
    have "\<forall>c\<in>set ?chunks. c \<in> S \<or> length c \<le> m + 2"
      using Cons.prems(1,2) by auto
    moreover have "p = [] \<or> p \<in> S \<or> length p \<le> m + 2" using pS by simp
    ultimately
    have "\<forall>c\<in>set (closeChunks (chunkLoop m ps ?chunks p)). c \<in> S \<or> length c \<le> m + 2"
      using psS by (intro Cons.IH)
    with False show ?thesis by simp
  qed
qed

lemma chunkLoop_oversize:
  assumes "m < length q" and "q \<in> set chunks \<or> q = cur \<or> q \<in> set ps"
  shows "q \<in> set (closeChunks (chunkLoop m ps chunks cur))"
  using assms
proof (induction ps arbitrary: chunks cur)
  case Nil
  then show ?case by (auto simp: closeChunks_def)
next
  case (Cons p ps)
  show ?case
  proof (cases "length cur + length p \<le> m")
    case True
    let ?cur = "cur @ (if cur \<noteq> [] then [lf, lf] else []) @ p"
    from True Cons.prems(1) have "q \<noteq> cur" and "q \<noteq> p" by auto
    with Cons.prems(2) have "q \<in> set chunks \<or> q = ?cur \<or> q \<in> set ps" by auto
    with Cons.prems(1) have "q \<in> set (closeChunks (chunkLoop m ps chunks ?cur))"
      by (intro Cons.IH)
    with True show ?thesis by simp
  next
    case False
    let ?chunks = "if cur \<noteq> [] then chunks @ [cur] else chunks"
    from Cons.prems have "q \<in> set ?chunks \<or> q = p \<or> q \<in> set ps" by auto
    with Cons.prems(1) have "q \<in> set (closeChunks (chunkLoop m ps ?chunks p))"
      by (intro Cons.IH)
    with False show ?thesis by simp
  qed
qed

text \<open>
  What \<open>chunkText\<close> guarantees for every text and every maximum chunk size: when some
  paragraph is not empty, every chunk that is not a single paragraph has length at most the
  maximum plus 2, the length of the separator that the size test leaves out; every
  paragraph longer than the maximum is emitted whole as a chunk of its own; and a text
  whose paragraphs are all empty (the empty text included) produces exactly one chunk, the
  whole text.
\<close>

lemma chunkText_greedy:
  "((\<exists>p\<in>set (splitParagraphs text). p \<noteq> []) \<longrightarrow>
      (\<forall>c\<in>set (chunkText text m). c \<in> set (splitParagraphs text) \<or> length c \<le> m + 2))
   \<and> (\<forall>p\<in>set (splitParagraphs text). m < length p \<longrightarrow> p \<in> set (chunkText text m))
   \<and> ((\<forall>p\<in>set (splitParagraphs text). p = []) \<longrightarrow> chunkText text m = [text])
   \<and> chunkText [] m = [[]]"
proof -
  let ?ps = "splitParagraphs text"
  let ?cs = "closeChunks (chunkLoop m ?ps [] [])"
  have eq: "chunkText text m = ?cs" if "\<exists>p\<in>set ?ps. p \<noteq> []"
  proof -
    from that have "?cs \<noteq> []" by (intro chunkLoop_nonempty) simp
    then show ?thesis by (simp add: chunkText_def Let_def)
  qed
  have 1: "(\<exists>p\<in>set ?ps. p \<noteq> []) \<longrightarrow>
      (\<forall>c\<in>set (chunkText text m). c \<in> set ?ps \<or> length c \<le> m + 2)"
  proof
    assume ne: "\<exists>p\<in>set ?ps. p \<noteq> []"
    have "\<forall>c\<in>set ?cs. c \<in> set ?ps \<or> length c \<le> m + 2"
      by (rule chunkLoop_bound) simp_all
    with eq [OF ne] show "\<forall>c\<in>set (chunkText text m). c \<in> set ?ps \<or> length c \<le> m + 2"
      by simp
  qed
  have 2: "\<forall>p\<in>set ?ps. m < length p \<longrightarrow> p \<in> set (chunkText text m)"
  proof (intro ballI impI)
    fix p assume p: "p \<in> set ?ps" and big: "m < length p"
    from big have "p \<noteq> []" by auto
    with p have ne: "\<exists>p\<in>set ?ps. p \<noteq> []" by auto
    from big p have "p \<in> set ?cs" by (intro chunkLoop_oversize) simp_all
    with eq [OF ne] show "p \<in> set (chunkText text m)" by simp
  qed
  have 3: "(\<forall>p\<in>set ?ps. p = []) \<longrightarrow> chunkText text m = [text]"
  proof
    assume "\<forall>p\<in>set ?ps. p = []"
    then have "chunkLoop m ?ps [] [] = ([], [])" by (rule chunkLoop_all_empty)
    then show "chunkText text m = [text]" by (simp add: chunkText_def closeChunks_def)
  qed
  have 4: "chunkText [] m = [[]]" by (simp add: chunkText_def closeChunks_def)
  from 1 2 3 4 show ?thesis by blast
qed

text \<open>
  Claim C4, at its failing input. The claim bounds every chunk of two or more paragraphs
  by the maximum chunk size. The size test of \<open>chunkText\<close> adds the length of the
  running chunk and of the next paragraph and leaves out the separator of two line feeds
  that joins them: with a maximum of 4, the paragraphs \<open>ab\<close> and \<open>cd\<close> pass the
  test (2 + 2) and are joined into one chunk of length 6.
\<close>

theorem C4_separator_failing_input:
  "splitParagraphs [CHR ''a'', CHR ''b'', lf, lf, CHR ''c'', CHR ''d''] = [''ab'', ''cd'']
   \<and> chunkText [CHR ''a'', CHR ''b'', lf, lf, CHR ''c'', CHR ''d''] 4
       = [[CHR ''a'', CHR ''b'', lf, lf, CHR ''c'', CHR ''d'']]
   \<and> \<not> length [CHR ''a'', CHR ''b'', lf, lf, CHR ''c'', CHR ''d''] \<le> (4::nat)"
  by code_simp

section \<open>The success rate of a skill\<close>

lemma set_newSet_aux: "set (fold (\<lambda>x s. if x \<in> set s then s else s @ [x]) xs acc) = set acc \<union> set xs"
  by (induction xs arbitrary: acc) auto

lemma distinct_newSet_aux:
  "distinct acc \<Longrightarrow> distinct (fold (\<lambda>x s. if x \<in> set s then s else s @ [x]) xs acc)"
  by (induction xs arbitrary: acc) auto

lemma set_newSet: "set (newSet xs) = set xs"
  by (simp add: newSet_def set_newSet_aux)

lemma length_newSet: "length (newSet xs) = card (set xs)"
proof -
  have "distinct (newSet xs)" by (simp add: newSet_def distinct_newSet_aux)
  then have "length (newSet xs) = card (set (newSet xs))" by (simp add: distinct_card)
  then show ?thesis by (simp add: set_newSet)
qed

lemma isSimilarContext_tokens:
  "isSimilarContext c1 c2 \<longleftrightarrow> jaccard (tokens (query c1)) (tokens (query c2)) > 0.3"
proof -
  have "set (filter (\<lambda>x. x \<in> set (newSet (splitWs (toLowerCase (query c2)))))
          (newSet (splitWs (toLowerCase (query c1)))))
        = tokens (query c1) \<inter> tokens (query c2)"
    by (auto simp: set_newSet tokens_def)
  then show ?thesis
    by (simp add: isSimilarContext_def Let_def length_newSet set_newSet tokens_def jaccard_def)
qed

lemma calculateSuccessRate_range: "0 \<le> calculateSuccessRate m sid ctx \<and> calculateSuccessRate m sid ctx \<le> 1"
proof -
  let ?rel = "filter (\<lambda>h. skillId h = sid \<and> isSimilarContext (context_h h) ctx) (executionHistory m)"
  have "length (filter (\<lambda>h. success (result h)) ?rel) \<le> length ?rel" by (rule length_filter_le)
  then have "real (length (filter (\<lambda>h. success (result h)) ?rel)) \<le> real (length ?rel)" by simp
  then have "?rel \<noteq> [] \<Longrightarrow> real (length (filter (\<lambda>h. success (result h)) ?rel)) / real (length ?rel) \<le> 1"
    by (simp add: divide_le_eq_1)
  then show ?thesis by (auto simp: calculateSuccessRate_def Let_def)
qed

lemma relevanceLoop_sum:
  "relevanceLoop n d ks r =
     r + (\<Sum>w\<leftarrow>ks. (if includes_s n w then 0.3 else 0) + (if includes_s d w then 0.2 else 0))"
  by (induction n d ks r rule: relevanceLoop.induct) (simp_all add: Let_def)

lemma relevance_sum_nonneg:
  "0 \<le> (\<Sum>w\<leftarrow>ks. (if includes_s n w then 0.3 else 0) + (if includes_s d w then 0.2 else (0::real)))"
  by (rule sum_list_nonneg) auto

lemma calculateRelevance_range: "0 \<le> calculateRelevance s ctx \<and> calculateRelevance s ctx \<le> 1"
  using relevance_sum_nonneg by (simp add: calculateRelevance_def Let_def relevanceLoop_sum)

lemma recommendLoop_sound:
  assumes "\<forall>r\<in>set recs. \<exists>(k, sk)\<in>set all. skill r = sk
             \<and> confidence r = (calculateSuccessRate m k ctx + calculateRelevance sk ctx) / 2"
    and "set sks \<subseteq> set all"
  shows "\<forall>r\<in>set (recommendLoop m ctx sks recs). \<exists>(k, sk)\<in>set all. skill r = sk
             \<and> confidence r = (calculateSuccessRate m k ctx + calculateRelevance sk ctx) / 2"
  using assms
proof (induction sks arbitrary: recs)
  case Nil
  then show ?case by simp
next
  case (Cons a sks)
  obtain k sk where a: "a = (k, sk)" by (cases a)
  let ?r = "\<lparr>skill = sk, confidence = (calculateSuccessRate m k ctx + calculateRelevance sk ctx) / 2,
              reason = generateRecommendationReason sk (calculateSuccessRate m k ctx) (calculateRelevance sk ctx),
              historicalSuccessRate = Some (calculateSuccessRate m k ctx)\<rparr>"
  from Cons.prems(2) a have mem: "(k, sk) \<in> set all" and sub: "set sks \<subseteq> set all" by simp_all
  have "\<forall>r\<in>set (recs @ [?r]). \<exists>(k, sk)\<in>set all. skill r = sk
             \<and> confidence r = (calculateSuccessRate m k ctx + calculateRelevance sk ctx) / 2"
    using Cons.prems(1) mem by auto
  from Cons.IH [OF this sub] a show ?case by (simp add: Let_def)
qed

text \<open>
  With the tokens of a query as \<open>split\<close> yields them, the success rate is the fraction
  the description gives.
\<close>

lemma calculateSuccessRate_tokens:
  "calculateSuccessRate m sid ctx =
     (let rel = filter (\<lambda>h. skillId h = sid
                   \<and> jaccard (tokens (query (context_h h))) (tokens (query ctx)) > 0.3)
                 (executionHistory m)
      in if rel = [] then 0.5
         else real (length (filter (\<lambda>h. success (result h)) rel)) / real (length rel))"
  by (simp add: calculateSuccessRate_def Let_def isSimilarContext_tokens)

text \<open>
  Claim C5, at its failing input. The history holds one successful run of \<open>code-review\<close>
  for the query \<open>deploy \<close> (with a space at its end); the current query is \<open>analyze \<close>.
  The two queries share no word, so the claim gives the success rate 0.5. \<open>split\<close> leaves
  an empty piece behind the space of each query; the empty piece is the one common element
  of the two sets, their Jaccard similarity is 1/3, the record counts as similar, and the
  success rate is 1.
\<close>

theorem C5_trailing_space_failing_input:
  "map (\<lambda>h. (skillId h, query (context_h h), success (result h))) (executionHistory manager1)
     = [(''code-review'', ''deploy '', True)]
   \<and> splitWs (toLowerCase ''deploy '') = [''deploy'', []]
   \<and> splitWs (toLowerCase ''analyze '') = [''analyze'', []]
   \<and> isSimilarContext (context0 ''deploy '') (context0 ''analyze '')
   \<and> calculateSuccessRate manager1 ''code-review'' (context0 ''analyze '') = 1"
  by code_simp

section \<open>Relevance and confidence\<close>

text \<open>
  Claim C6. The relevance score of a skill for a query is the sum, over the words of the
  lower-cased query that are longer than 3, of 0.3 when the lower-cased name of the skill
  contains the word plus 0.2 when its lower-cased description does, capped at 1; the
  confidence of every recommendation is the arithmetic mean of the success rate and the
  relevance score of its skill; and every confidence lies between 0 and 1.
\<close>

theorem C6_relevance_and_confidence:
  "calculateRelevance s ctx = relevanceScore_spec (name s) (description s) (query ctx)
   \<and> (\<forall>r\<in>set (recommendSkills m ctx limit).
        (\<exists>(k, sk)\<in>set (skills m). skill r = sk
           \<and> confidence r = (calculateSuccessRate m k ctx + calculateRelevance sk ctx) / 2)
        \<and> 0 \<le> confidence r \<and> confidence r \<le> 1)"
proof
  show "calculateRelevance s ctx = relevanceScore_spec (name s) (description s) (query ctx)"
    by (simp add: calculateRelevance_def relevanceScore_spec_def Let_def relevanceLoop_sum
        min.commute)
next
  let ?mean = "\<lambda>r. \<exists>(k, sk)\<in>set (skills m). skill r = sk
           \<and> confidence r = (calculateSuccessRate m k ctx + calculateRelevance sk ctx) / 2"
  have all: "\<forall>r\<in>set (recommendLoop m ctx (skills m) []). ?mean r"
    by (rule recommendLoop_sound) simp_all
  have sub: "set (recommendSkills m ctx limit) \<subseteq> set (recommendLoop m ctx (skills m) [])"
    using set_slice0 [of "sort_key (\<lambda>r. - confidence r) (recommendLoop m ctx (skills m) [])" limit]
    by (simp add: recommendSkills_def)
  show "\<forall>r\<in>set (recommendSkills m ctx limit). ?mean r \<and> 0 \<le> confidence r \<and> confidence r \<le> 1"
  proof
    fix r assume "r \<in> set (recommendSkills m ctx limit)"
    with sub all have mean: "?mean r" by blast
    then obtain k sk where
      c: "confidence r = (calculateSuccessRate m k ctx + calculateRelevance sk ctx) / 2"
      by auto
    from calculateSuccessRate_range [of m k ctx] calculateRelevance_range [of sk ctx] c
    have "0 \<le> confidence r \<and> confidence r \<le> 1" by simp
    with mean show "?mean r \<and> 0 \<le> confidence r \<and> confidence r \<le> 1" by simp
  qed
qed

theorem C6_relevance_and_confidence_witness:
  "calculateRelevance codeReviewSkill (context0 ''review code'') = 0.8
   \<and> map confidence (recommendSkills manager0 (context0 ''review code'') 3) = [0.65, 0.25]
   \<and> list_all (\<lambda>r. 0 \<le> confidence r \<and> confidence r \<le> 1)
        (recommendSkills manager0 (context0 ''review code'') 3)"
proof -
  note t = C6_relevance_and_confidence [of codeReviewSkill "context0 ''review code''" manager0 3]
  have spec: "relevanceScore_spec (name codeReviewSkill) (description codeReviewSkill)
                (query (context0 ''review code'')) = 0.8"
    by code_simp
  have a: "calculateRelevance codeReviewSkill (context0 ''review code'') = 0.8"
    using t [THEN conjunct1] spec by simp
  have b: "map confidence (recommendSkills manager0 (context0 ''review code'') 3) = [0.65, 0.25]"
    by code_simp
  have c: "list_all (\<lambda>r. 0 \<le> confidence r \<and> confidence r \<le> 1)
        (recommendSkills manager0 (context0 ''review code'') 3)"
    using t [THEN conjunct2] by (simp add: list_all_iff)
  from a b c show ?thesis by blast
qed

section \<open>Executing a skill\<close>

text \<open>
  Claim C7. When no skill is registered under the id, \<open>executeSkill\<close> fails with the
  error "Skill not found" and leaves the manager, its history included, as it was. When a
  skill is registered under the id, the call returns a result and appends exactly one record
  to the history, holding the id, the context, that result and the time; the result is the
  one the skill returned, or, when the skill threw, a result with \<open>success = false\<close> and
  the message of what was thrown.
\<close>

theorem C7_executeSkill_history:
  "(map_of (skills m) sid = None \<longrightarrow>
      executeSkill m sid ctx now = (Inl (Skill_not_found sid), m))
   \<and> (\<forall>s. map_of (skills m) sid = Some s \<longrightarrow>
        (\<exists>res. fst (executeSkill m sid ctx now) = Inr res
           \<and> executionHistory (snd (executeSkill m sid ctx now))
               = executionHistory m
                 @ [\<lparr>skillId = sid, context_h = ctx, result = res, timestamp_h = now\<rparr>]
           \<and> (\<forall>err. execute s ctx = Inl err \<longrightarrow>
                 success res = False \<and> error_r res = Some (message err))
           \<and> (\<forall>r. execute s ctx = Inr r \<longrightarrow> res = r)))"
proof (intro conjI allI impI)
  assume "map_of (skills m) sid = None"
  then show "executeSkill m sid ctx now = (Inl (Skill_not_found sid), m)"
    by (simp add: executeSkill_def)
next
  fix s assume reg: "map_of (skills m) sid = Some s"
  let ?failed = "\<lambda>err. \<lparr>success = False, output_r = Null, error_r = Some (message err),
                          metadata_r = None\<rparr>"
  let ?res = "case execute s ctx of Inr r \<Rightarrow> r | Inl err \<Rightarrow> ?failed err"
  let ?entry = "\<lparr>skillId = sid, context_h = ctx, result = ?res, timestamp_h = now\<rparr>"
  have run: "executeSkill m sid ctx now
               = (Inr ?res, saveHistory (m\<lparr>executionHistory := executionHistory m @ [?entry]\<rparr>))"
    using reg by (simp add: executeSkill_def Let_def)
  have 1: "fst (executeSkill m sid ctx now) = Inr ?res"
    by (simp add: run)
  have 2: "executionHistory (snd (executeSkill m sid ctx now)) = executionHistory m @ [?entry]"
    by (simp add: run saveHistory_def)
  have 3: "\<forall>err. execute s ctx = Inl err \<longrightarrow>
             success ?res = False \<and> error_r ?res = Some (message err)"
    by simp
  have 4: "\<forall>r. execute s ctx = Inr r \<longrightarrow> ?res = r"
    by simp
  from 1 2 3 4
  show "\<exists>res. fst (executeSkill m sid ctx now) = Inr res
           \<and> executionHistory (snd (executeSkill m sid ctx now))
               = executionHistory m
                 @ [\<lparr>skillId = sid, context_h = ctx, result = res, timestamp_h = now\<rparr>]
           \<and> (\<forall>err. execute s ctx = Inl err \<longrightarrow>
                 success res = False \<and> error_r res = Some (message err))
           \<and> (\<forall>r. execute s ctx = Inr r \<longrightarrow> res = r)"
    by blast
qed

theorem C7_executeSkill_history_witness:
  "executeSkill manager0 ''unknown'' (context0 ''q'') 7 = (Inl (Skill_not_found ''unknown''), manager0)
   \<and> (\<exists>res. fst (executeSkill manager0 ''throwing'' (context0 ''q'') 7) = Inr res
          \<and> executionHistory (snd (executeSkill manager0 ''throwing'' (context0 ''q'') 7))
               = [\<lparr>skillId = ''throwing'', context_h = context0 ''q'', result = res, timestamp_h = 7\<rparr>]
          \<and> success res = False \<and> error_r res = Some ''boom'')
   \<and> (\<exists>res. fst (executeSkill manager0 ''code-review'' (context0 ''q'') 7) = Inr res
          \<and> executionHistory (snd (executeSkill manager0 ''code-review'' (context0 ''q'') 7))
               = [\<lparr>skillId = ''code-review'', context_h = context0 ''q'', result = res,
                   timestamp_h = 7\<rparr>]
          \<and> success res = True \<and> error_r res = None)"
proof -
  have sk: "skills manager0 = [(''code-review'', codeReviewSkill), (''throwing'', throwingSkill)]"
    by (simp add: manager0_def registerSkill_def codeReviewSkill_def throwingSkill_def)
  have h0: "executionHistory manager0 = []"
    by (simp add: manager0_def registerSkill_def)
  have h1: "map_of (skills manager0) ''unknown'' = None" by (simp add: sk)
  have h2: "map_of (skills manager0) ''throwing'' = Some throwingSkill" by (simp add: sk)
  have h3: "execute throwingSkill (context0 ''q'') = Inl (Error ''boom'')"
    by (simp add: throwingSkill_def)
  have h4: "map_of (skills manager0) ''code-review'' = Some codeReviewSkill" by (simp add: sk)
  have h5: "execute codeReviewSkill (context0 ''q'')
              = Inr \<lparr>success = True, output_r = Str ''findings'', error_r = None,
                     metadata_r = Some [(''analysisType'', Str ''code-review'')]\<rparr>"
    by (simp add: codeReviewSkill_def)
  note t = C7_executeSkill_history
  have a: "executeSkill manager0 ''unknown'' (context0 ''q'') 7
             = (Inl (Skill_not_found ''unknown''), manager0)"
    by (rule t [THEN conjunct1, THEN mp, OF h1])
  from t [of manager0 "''throwing''" "context0 ''q''" 7, THEN conjunct2, THEN spec, THEN mp, OF h2]
  obtain res where
    r1: "fst (executeSkill manager0 ''throwing'' (context0 ''q'') 7) = Inr res"
    and r2: "executionHistory (snd (executeSkill manager0 ''throwing'' (context0 ''q'') 7))
               = executionHistory manager0
                 @ [\<lparr>skillId = ''throwing'', context_h = context0 ''q'', result = res, timestamp_h = 7\<rparr>]"
    and r3: "\<forall>err. execute throwingSkill (context0 ''q'') = Inl err \<longrightarrow>
                 success res = False \<and> error_r res = Some (message err)"
    by blast
  from r3 h3 have r4: "success res = False \<and> error_r res = Some ''boom''" by simp
  from t [of manager0 "''code-review''" "context0 ''q''" 7, THEN conjunct2, THEN spec, THEN mp, OF h4]
  obtain res' where
    s1: "fst (executeSkill manager0 ''code-review'' (context0 ''q'') 7) = Inr res'"
    and s2: "executionHistory (snd (executeSkill manager0 ''code-review'' (context0 ''q'') 7))
               = executionHistory manager0
                 @ [\<lparr>skillId = ''code-review'', context_h = context0 ''q'', result = res',
                     timestamp_h = 7\<rparr>]"
    and s3: "\<forall>r. execute codeReviewSkill (context0 ''q'') = Inr r \<longrightarrow> res' = r"
    by blast
  from s3 h5 have s4: "success res' = True \<and> error_r res' = None" by simp
  have b: "\<exists>res. fst (executeSkill manager0 ''throwing'' (context0 ''q'') 7) = Inr res
          \<and> executionHistory (snd (executeSkill manager0 ''throwing'' (context0 ''q'') 7))
               = [\<lparr>skillId = ''throwing'', context_h = context0 ''q'', result = res, timestamp_h = 7\<rparr>]
          \<and> success res = False \<and> error_r res = Some ''boom''"
    using r1 r2 r4 h0 by auto
  have c: "\<exists>res. fst (executeSkill manager0 ''code-review'' (context0 ''q'') 7) = Inr res
          \<and> executionHistory (snd (executeSkill manager0 ''code-review'' (context0 ''q'') 7))
               = [\<lparr>skillId = ''code-review'', context_h = context0 ''q'', result = res,
                   timestamp_h = 7\<rparr>]
          \<and> success res = True \<and> error_r res = None"
    using s1 s2 s4 h0 by auto
  from a b c show ?thesis by blast
qed

section \<open>Ingestion\<close>

lemma keys_map_set: "fst ` set (map_set m k v) = insert k (fst ` set m)"
  by (induction m k v rule: map_set.induct) auto

lemma keys_store: "fst ` set (vectors (store vs e emb)) = insert (id_e e) (fst ` set (vectors vs))"
  by (simp add: store_def saveVectors_def keys_map_set)

lemma ingestLoop_ids:
  "snd (ingestLoop env fp opts fmt tot i chunks vs ids)
     = ids @ map (generateId env) [i..<i + length chunks]"
proof (induction chunks arbitrary: i vs ids)
  case Nil
  show ?case by simp
next
  case (Cons c chunks)
  have "[i..<i + length (c # chunks)] = i # [Suc i..<Suc i + length chunks]"
    by (simp add: upt_rec)
  with Cons show ?case by (simp add: Let_def)
qed

lemma ingestLoop_keys:
  "fst ` set (vectors (fst (ingestLoop env fp opts fmt tot i chunks vs ids)))
     = fst ` set (vectors vs) \<union> generateId env ` {i..<i + length chunks}"
proof (induction chunks arbitrary: i vs ids)
  case Nil
  show ?case by simp
next
  case (Cons c chunks)
  have "{i..<i + length (c # chunks)} = insert i {Suc i..<Suc i + length chunks}"
    by auto
  with Cons show ?case by (simp add: Let_def keys_store)
qed

text \<open>
  Claim C9, as amended. For every file whose conversion yields \<open>k\<close> chunks, \<open>ingest\<close>
  returns one string: the \<open>k\<close> ids generated in the call, in chunk order, joined by
  commas; and each of these ids is a key of the store after the call.
\<close>

theorem C9_ingest_joined_ids:
  assumes "convertToText env filePath = Inr cr"
  shows "fst (ingest env am filePath options)
           = Inr (join (map (generateId env)
                    [0..<length (chunkText (content_c cr) (or_num (chunkSize options) 1000))]) '','')
         \<and> set (map (generateId env)
                    [0..<length (chunkText (content_c cr) (or_num (chunkSize options) 1000))])
             \<subseteq> fst ` set (vectors (vectorStore (snd (ingest env am filePath options))))"
proof -
  let ?chunks = "chunkText (content_c cr) (or_num (chunkSize options) 1000)"
  let ?run = "ingestLoop env filePath options (originalFormat cr) (length ?chunks) 0 ?chunks
                (vectorStore am) []"
  have ing: "ingest env am filePath options
               = (Inr (join (snd ?run) '',''), am\<lparr>vectorStore := fst ?run\<rparr>)"
    using assms by (simp add: ingest_def Let_def split: prod.splits)
  have ids: "snd ?run = map (generateId env) [0..<length ?chunks]"
    using ingestLoop_ids [of env filePath options "originalFormat cr" "length ?chunks" 0 ?chunks
        "vectorStore am" "[]"]
    by simp
  have keys: "set (map (generateId env) [0..<length ?chunks]) \<subseteq> fst ` set (vectors (fst ?run))"
    using ingestLoop_keys [of env filePath options "originalFormat cr" "length ?chunks" 0 ?chunks
        "vectorStore am" "[]"]
    by auto
  from ing ids keys show ?thesis by simp
qed

lemma chunkText_example:
  "chunkText [CHR ''a'', CHR ''b'', lf, lf, CHR ''c'', CHR ''d''] 3 = [''ab'', ''cd'']"
  by code_simp

lemma ingest_example:
  "fst (ingest env0 (memory0 empty_store) ''notes.txt'' options0) = Inr ''a1,b2''"
  by (simp add: ingest_def env0_def options0_def or_num_def chunkText_example Let_def
      split: prod.splits)

theorem C9_ingest_joined_ids_witness:
  "fst (ingest env0 (memory0 empty_store) ''notes.txt'' options0) = Inr ''a1,b2''
   \<and> {''a1'', ''b2''}
       \<subseteq> fst ` set (vectors (vectorStore (snd (ingest env0 (memory0 empty_store) ''notes.txt'' options0))))"
proof -
  let ?cr = "\<lparr>content_c = [CHR ''a'', CHR ''b'', lf, lf, CHR ''c'', CHR ''d''],
              originalFormat = ''txt''\<rparr>"
  have h: "convertToText env0 ''notes.txt'' = Inr ?cr"
    by (simp add: env0_def)
  have k: "chunkText (content_c ?cr) (or_num (chunkSize options0) 1000) = [''ab'', ''cd'']"
    by (simp add: options0_def or_num_def chunkText_example)
  have ids: "map (generateId env0) [0..<length [''ab'', ''cd'']] = [''a1'', ''b2'']"
    by (simp add: env0_def upt_rec)
  from C9_ingest_joined_ids [OF h, of "memory0 empty_store" options0]
  show ?thesis
    unfolding k ids by simp
qed

text \<open>
  The claim as stated, a list of the \<open>k\<close> ids, fails: for a file of two chunks, whose
  ids are \<open>a1\<close> and \<open>b2\<close>, the value returned is the one string \<open>a1,b2\<close>, which is
  neither of the ids and has five elements, not two.
\<close>

theorem C9_joined_string_counterexample:
  "map (generateId env0)
     [0..<length (chunkText [CHR ''a'', CHR ''b'', lf, lf, CHR ''c'', CHR ''d''] 3)] = [''a1'', ''b2'']
   \<and> fst (ingest env0 (memory0 empty_store) ''notes.txt'' options0) = Inr ''a1,b2''
   \<and> ''a1,b2'' \<notin> set [''a1'', ''b2'']
   \<and> length ''a1,b2'' \<noteq> length [''a1'', ''b2'']"
proof -
  have "map (generateId env0)
     [0..<length (chunkText [CHR ''a'', CHR ''b'', lf, lf, CHR ''c'', CHR ''d''] 3)] = [''a1'', ''b2'']"
    by (simp add: chunkText_example env0_def upt_rec)
  with ingest_example show ?thesis by simp
qed

section \<open>Filtered recall\<close>

lemma recall_example: "recall env0 (memory0 store2) ''q'' recallOptions0 = Inr []"
  by (simp add: recall_def recallOptions0_def filters0_def env0_def memory0_def embed_def
      or_num_def search_def store2_def cos10 sort_desc_def slice0_def applyFilters_def
      passesFilters_def entry0_def)

lemma qualifies_example:
  "filter (qualifies (embed env0 ''q'') (1 / 2) filters0) (vectors store2)
     = [(''b'', entry0 ''b'' Conversation, [1, 0])]"
  by (simp add: qualifies_def filters0_def env0_def embed_def store2_def cos10 passesFilters_def
      entry0_def)

text \<open>
  Claim C10. \<open>recall\<close> passes the limit to the search and filters what the search
  returns, so the entries the filter removes are not replaced by lower-ranked ones: the
  filtered recall is the filter applied to the limited search. For the store \<open>store2\<close>,
  the limit 1, the threshold 1/2 and the filter on the type \<open>conversation\<close>, the search
  returns the entry \<open>a\<close>, a document, the filter removes it, and the recall returns no
  result, fewer than the limit, although one stored entry, \<open>b\<close>, has the similarity 1 and
  passes the filter.
\<close>

theorem C10_limit_before_filters:
  "recall env am q (options\<lparr>filters := Some f\<rparr>)
     = (case search (vectorStore am) (embed env q) (or_num (limit_o options) 5)
               (or_num (threshold_o options) (or_num (Some (similarityThreshold am)) 0.5))
        of Inl err \<Rightarrow> Inl err | Inr results \<Rightarrow> Inr (applyFilters results f))
   \<and> (\<exists>rs. recall env0 (memory0 store2) ''q'' recallOptions0 = Inr rs
         \<and> or_num (limit_o recallOptions0) 5 = 1
         \<and> int (length rs) < 1
         \<and> 1 \<le> int (length (filter (qualifies (embed env0 ''q'') (1 / 2) filters0)
                               (vectors store2))))"
proof
  show "recall env am q (options\<lparr>filters := Some f\<rparr>)
     = (case search (vectorStore am) (embed env q) (or_num (limit_o options) 5)
               (or_num (threshold_o options) (or_num (Some (similarityThreshold am)) 0.5))
        of Inl err \<Rightarrow> Inl err | Inr results \<Rightarrow> Inr (applyFilters results f))"
    by (simp add: recall_def Let_def split: sum.splits)
next
  have "or_num (limit_o recallOptions0) 5 = (1::int)"
    by (simp add: recallOptions0_def or_num_def)
  then show "\<exists>rs. recall env0 (memory0 store2) ''q'' recallOptions0 = Inr rs
         \<and> or_num (limit_o recallOptions0) 5 = 1
         \<and> int (length rs) < 1
         \<and> 1 \<le> int (length (filter (qualifies (embed env0 ''q'') (1 / 2) filters0)
                               (vectors store2)))"
    by (simp add: recall_example qualifies_example)
qed

end
